theory Spec2Isabelle
  imports
    Main
    "HOL-Library.AList"
    "HOL-Library.Char_ord"
    "HOL-Library.List_Lexorder"
    "HOL-Library.Multiset"
begin

section \<open>The metric differ of cmd/test-proxy/diff.go\<close>

subsection \<open>Data model\<close>

text \<open>
  A Go \<^verbatim>\<open>map[K]V\<close> is modelled as an association list with pairwise distinct keys.
  The order of the list stands for the order in which a \<^verbatim>\<open>range\<close> loop happens to
  visit the entries, which Go leaves unspecified; indexing \<^verbatim>\<open>m[k]\<close> is \<^const>\<open>map_of\<close>
  and the assignment \<^verbatim>\<open>m[k] = v\<close> is \<^const>\<open>AList.update\<close>, which replaces the entry
  of an existing key and adds a new one otherwise. The strings of Go are byte
  sequences, here \<^typ>\<open>string\<close>, ordered byte by byte as \<^verbatim>\<open>sort.Strings\<close> does.
\<close>

text \<open>
  Modelled from the spec: the struct \<^verbatim>\<open>Metric\<close> is declared in another file of package
  main, not in diff.go. The spec gives it the four attributes below, the first three
  strings and the last a mapping from tag name to tag value. A collection
  \<^verbatim>\<open>[]*Metric\<close> is a list of such records: the pointers are only ever dereferenced,
  and the spec's caller contract rules nil out.
\<close>

record Metric =
  Name :: string
  Value :: string
  Timestamp :: string
  Tags :: "(string \<times> string) list"

record Diff =
  Missing :: "Metric list"
  Extra :: "Metric list"

text \<open>A keyer tells whether it could generate a key, and the key.\<close>

type_synonym keyer = "Metric \<Rightarrow> bool \<times> string"

text \<open>Indexing a \<^verbatim>\<open>map[string]string\<close>: the zero value for an absent key.\<close>

definition index :: "(string \<times> string) list \<Rightarrow> string \<Rightarrow> string" where
  "index tags name = (case map_of tags name of None \<Rightarrow> '''' | Some v \<Rightarrow> v)"

text \<open>\<^verbatim>\<open>strings.Join\<close> of the standard library.\<close>

fun Join :: "string list \<Rightarrow> string \<Rightarrow> string" where
  "Join [] sep = ''''"
| "Join [x] sep = x"
| "Join (x # y # ys) sep = x @ sep @ Join (y # ys) sep"

text \<open>
  \<^verbatim>\<open>fmt.Sprintf("%#v", s)\<close> on a string is \<^verbatim>\<open>strconv.Quote\<close> of the standard library,
  whose result depends on Unicode tables. The functions below take it as the
  parameter \<open>quote\<close>, and every theorem holds for any such function. Where a
  concrete input is evaluated, \<open>quoteASCII\<close> is used: it agrees with
  \<^verbatim>\<open>strconv.Quote\<close> on strings of printable ASCII characters.
\<close>

definition quoteASCII :: "string \<Rightarrow> string" where
  "quoteASCII s =
     [CHR 0x22] @
     concat (map (\<lambda>c. if c = CHR 0x22 \<or> c = CHR 0x5C then [CHR 0x5C, c] else [c]) s) @
     [CHR 0x22]"

subsection \<open>Keyers\<close>

text \<open>The loop of the closure returned by \<^verbatim>\<open>compositeKey\<close>, with \<open>keys\<close> the slice built so far.\<close>

fun compositeLoop :: "keyer list \<Rightarrow> Metric \<Rightarrow> string list \<Rightarrow> bool \<times> string" where
  "compositeLoop [] metric keys = (True, Join keys '' '')"
| "compositeLoop (k # ks) metric keys =
     (case k metric of (matched, key) \<Rightarrow>
        if \<not> matched then (False, '''')
        else compositeLoop ks metric (keys @ [key]))"

definition compositeKey :: "keyer list \<Rightarrow> keyer" where
  "compositeKey keyers = (\<lambda>metric. compositeLoop keyers metric [])"

definition nameKey :: "string \<Rightarrow> keyer" where
  "nameKey expected = (\<lambda>metric. (Name metric = expected, Name metric))"

definition valueKey :: "string \<Rightarrow> keyer" where
  "valueKey expected = (\<lambda>metric. (Value metric = expected, Value metric))"

definition timestampKey :: "string \<Rightarrow> keyer" where
  "timestampKey expected = (\<lambda>metric. (Timestamp metric = expected, Timestamp metric))"

definition tagNameKey :: "string \<Rightarrow> keyer" where
  "tagNameKey name = (\<lambda>metric. (map_of (Tags metric) name \<noteq> None, name @ ''=*''))"

definition fullTagKey :: "(string \<Rightarrow> string) \<Rightarrow> string \<Rightarrow> string \<Rightarrow> keyer" where
  "fullTagKey quote name val =
     (\<lambda>metric. (index (Tags metric) name = val, name @ ''='' @ quote (index (Tags metric) name)))"

text \<open>The names of the tags, collected in iteration order and then sorted.\<close>

definition tagNames :: "(string \<times> string) list \<Rightarrow> string list" where
  "tagNames tags = sort (map fst tags)"

text \<open>The keyer that the second loop of \<^verbatim>\<open>tagsKey\<close> stores for one tag name.\<close>

definition tagKeyer :: "(string \<Rightarrow> string) \<Rightarrow> (string \<times> string) list \<Rightarrow> string \<Rightarrow> keyer" where
  "tagKeyer quote tags name =
     (if index tags name = '''' then tagNameKey name
      else fullTagKey quote name (index tags name))"

definition tagsKey :: "(string \<Rightarrow> string) \<Rightarrow> (string \<times> string) list \<Rightarrow> keyer" where
  "tagsKey quote tags = compositeKey (map (tagKeyer quote tags) (tagNames tags))"

definition metricKeyer :: "(string \<Rightarrow> string) \<Rightarrow> Metric \<Rightarrow> keyer" where
  "metricKeyer quote m =
     compositeKey
       ([nameKey (Name m)] @
        (if Value m \<noteq> '''' then [valueKey (Value m)] else []) @
        (if Timestamp m \<noteq> '''' then [timestampKey (Timestamp m)] else []) @
        [tagsKey quote (Tags m)])"

text \<open>
  \<^verbatim>\<open>keyersByMetric\<close> is only ever indexed, never iterated: it is a function from the
  name to the slice registered under it, the empty slice for a name that is absent.
\<close>

fun metricKeyersLoop ::
  "(string \<Rightarrow> string) \<Rightarrow> Metric list \<Rightarrow> (string \<Rightarrow> keyer list) \<Rightarrow> (string \<Rightarrow> keyer list)" where
  "metricKeyersLoop quote [] keyersByMetric = keyersByMetric"
| "metricKeyersLoop quote (m # ms) keyersByMetric =
     metricKeyersLoop quote ms
       (keyersByMetric(Name m := keyersByMetric (Name m) @ [metricKeyer quote m]))"

definition metricKeyers :: "(string \<Rightarrow> string) \<Rightarrow> Metric list \<Rightarrow> (string \<Rightarrow> keyer list)" where
  "metricKeyers quote expected = metricKeyersLoop quote expected (\<lambda>_. [])"

subsection \<open>Key maps and their difference\<close>

text \<open>
  The inner loop of \<^verbatim>\<open>metricKeyMap\<close>: the key of the first keyer that matches, where
  the loop breaks, or \<open>None\<close> when the loop ends with \<^verbatim>\<open>found\<close> still false.
\<close>

fun foundKey :: "keyer list \<Rightarrow> Metric \<Rightarrow> string option" where
  "foundKey [] metric = None"
| "foundKey (foundKeyer # rest) metric =
     (case foundKeyer metric of (matched, key) \<Rightarrow>
        if matched then Some key else foundKey rest metric)"

text \<open>The key under which one pass of the outer loop stores \<open>metric\<close>.\<close>

definition metricKey :: "(string \<Rightarrow> string) \<Rightarrow> (string \<Rightarrow> keyer list) \<Rightarrow> Metric \<Rightarrow> string" where
  "metricKey quote keyers metric =
     (case foundKey (keyers (Name metric)) metric of
        Some key \<Rightarrow> key
      | None \<Rightarrow> snd (metricKeyer quote metric metric))"

fun metricKeyMapLoop ::
  "(string \<Rightarrow> string) \<Rightarrow> Metric list \<Rightarrow> (string \<Rightarrow> keyer list) \<Rightarrow>
   (string \<times> Metric) list \<Rightarrow> (string \<times> Metric) list" where
  "metricKeyMapLoop quote [] keyers keyMap = keyMap"
| "metricKeyMapLoop quote (metric # metrics) keyers keyMap =
     metricKeyMapLoop quote metrics keyers
       (AList.update (metricKey quote keyers metric) metric keyMap)"

definition metricKeyMap ::
  "(string \<Rightarrow> string) \<Rightarrow> Metric list \<Rightarrow> (string \<Rightarrow> keyer list) \<Rightarrow> (string \<times> Metric) list" where
  "metricKeyMap quote metrics keyers = metricKeyMapLoop quote metrics keyers []"

text \<open>
  \<^verbatim>\<open>disjunct\<close> visits the entries of \<open>a\<close>, then those of \<open>b\<close>, each in the order of
  its list, and appends the value of every key that the other map lacks.
\<close>

definition disjunct ::
  "(string \<times> Metric) list \<Rightarrow> (string \<times> Metric) list \<Rightarrow> Metric list \<times> Metric list" where
  "disjunct a b =
     (map snd (filter (\<lambda>(x, _). map_of b x = None) a),
      map snd (filter (\<lambda>(y, _). map_of a y = None) b))"

definition DiffMetrics :: "(string \<Rightarrow> string) \<Rightarrow> Metric list \<Rightarrow> Metric list \<Rightarrow> Diff" where
  "DiffMetrics quote expected actual =
     (let keyers = metricKeyers quote expected;
          expectedKeyMap = metricKeyMap quote expected keyers;
          actualKeyMap = metricKeyMap quote actual keyers;
          (missing, extra) = disjunct expectedKeyMap actualKeyMap
      in \<lparr>Missing = missing, Extra = extra\<rparr>)"

section \<open>The tag builder of plugins/sources/kstate/helper.go\<close>

fun copyTags :: "(string \<times> string) list \<Rightarrow> (string \<times> string) list \<Rightarrow> (string \<times> string) list" where
  "copyTags [] tags = tags"
| "copyTags ((k, v) # srcTags) tags = copyTags srcTags (AList.update k v tags)"

definition buildTags ::
  "string \<Rightarrow> string \<Rightarrow> string \<Rightarrow> (string \<times> string) list \<Rightarrow> (string \<times> string) list" where
  "buildTags key name ns srcTags =
     copyTags srcTags (AList.update ''namespace_name'' ns (AList.update key name []))"

section \<open>Example metrics\<close>

text \<open>
  The two metrics of the spec's partial-match example; two metrics that differ only
  in which of Value and Timestamp carries the string \<open>1\<close>; an expected metric that
  asks for the exact tag \<open>pod=abc\<close>; an actual metric of another name; three metrics
  named \<open>x\<close> without tags, with no Value, with Value 42 and with Value 43; an
  expected metric that asks for the presence of the tag \<open>zone\<close>; and a second actual
  metric with a tag \<open>pod\<close>.
\<close>

definition cpu_expected :: Metric where
  "cpu_expected = \<lparr>Name = ''cpu.usage'', Value = '''', Timestamp = '''', Tags = [(''pod'', '''')]\<rparr>"

definition cpu_actual :: Metric where
  "cpu_actual = \<lparr>Name = ''cpu.usage'', Value = ''42'', Timestamp = ''1000'',
     Tags = [(''pod'', ''abc''), (''node'', ''n1'')]\<rparr>"

definition value_only :: Metric where
  "value_only = \<lparr>Name = ''a'', Value = ''1'', Timestamp = '''', Tags = []\<rparr>"

definition timestamp_only :: Metric where
  "timestamp_only = \<lparr>Name = ''a'', Value = '''', Timestamp = ''1'', Tags = []\<rparr>"

definition cpu_exact :: Metric where
  "cpu_exact = \<lparr>Name = ''cpu.usage'', Value = '''', Timestamp = '''', Tags = [(''pod'', ''abc'')]\<rparr>"

definition mem_actual :: Metric where
  "mem_actual = \<lparr>Name = ''mem.usage'', Value = ''7'', Timestamp = '''', Tags = []\<rparr>"

definition x_any :: Metric where
  "x_any = \<lparr>Name = ''x'', Value = '''', Timestamp = '''', Tags = []\<rparr>"

definition x_42 :: Metric where
  "x_42 = \<lparr>Name = ''x'', Value = ''42'', Timestamp = '''', Tags = []\<rparr>"

definition x_43 :: Metric where
  "x_43 = \<lparr>Name = ''x'', Value = ''43'', Timestamp = '''', Tags = []\<rparr>"

definition cpu_zone :: Metric where
  "cpu_zone = \<lparr>Name = ''cpu.usage'', Value = '''', Timestamp = '''', Tags = [(''zone'', '''')]\<rparr>"

definition cpu_other :: Metric where
  "cpu_other = \<lparr>Name = ''cpu.usage'', Value = ''43'', Timestamp = ''1000'',
     Tags = [(''pod'', ''def'')]\<rparr>"

section \<open>Auxiliary facts\<close>

subsection \<open>Lists and strings\<close>

lemma find_append_case:
  "find P (xs @ ys) = (case find P xs of None \<Rightarrow> find P ys | Some x \<Rightarrow> Some x)"
  by (induction xs) auto

lemma find_key_None: "find (\<lambda>m. f m = k) ms = None \<longleftrightarrow> k \<notin> f ` set ms"
  by (auto simp: find_None_iff)

lemma find_key_Some: "find (\<lambda>m. f m = k) ms = Some v \<Longrightarrow> v \<in> set ms \<and> f v = k"
  by (auto simp: find_Some_iff)

lemma find_last_write:
  assumes "\<forall>m\<in>set post. f m = f a \<longrightarrow> m = a"
  shows "find (\<lambda>m. f m = f a) (rev (pre @ a # post)) = Some a"
proof -
  have "find (\<lambda>m. f m = f a) (rev post) = None \<or> find (\<lambda>m. f m = f a) (rev post) = Some a"
  proof (cases "find (\<lambda>m. f m = f a) (rev post)")
    case None
    then show ?thesis by simp
  next
    case (Some v)
    then have "v \<in> set post \<and> f v = f a"
      by (auto dest: find_key_Some)
    with assms Some show ?thesis by auto
  qed
  then show ?thesis
    by (auto simp: find_append_case)
qed

lemma find_unique_set:
  assumes uniq: "\<forall>x\<in>set xs. \<forall>y\<in>set xs. P x \<and> P y \<longrightarrow> x = y"
    and sets: "set ys = set xs"
  shows "find P ys = find P xs"
proof (cases "find P xs")
  case None
  then have "\<forall>x\<in>set ys. \<not> P x"
    using sets by (simp add: find_None_iff)
  then have "find P ys = None"
    by (simp add: find_None_iff)
  with None show ?thesis by simp
next
  case (Some x)
  then have x: "x \<in> set xs \<and> P x"
    by (auto simp: find_Some_iff)
  then have "find P ys \<noteq> None"
    using sets by (auto simp: find_None_iff)
  then obtain y where y: "find P ys = Some y"
    by blast
  then have "y \<in> set xs \<and> P y"
    using sets by (auto simp: find_Some_iff)
  with x uniq have "y = x"
    by blast
  with y Some show ?thesis by simp
qed

lemma find_rev_last:
  "find P (rev xs) = (if filter P xs = [] then None else Some (last (filter P xs)))"
  by (induction xs rule: rev_induct) auto

lemma find_rev_key:
  "find (\<lambda>m. f m = f v) (rev xs) = Some v \<longleftrightarrow>
     v \<in> set xs \<and> last (filter (\<lambda>m. f m = f v) xs) = v"
proof
  assume "find (\<lambda>m. f m = f v) (rev xs) = Some v"
  then have ne: "filter (\<lambda>m. f m = f v) xs \<noteq> []"
    and l: "last (filter (\<lambda>m. f m = f v) xs) = v"
    by (simp_all add: find_rev_last split: if_splits)
  from ne have "last (filter (\<lambda>m. f m = f v) xs) \<in> set (filter (\<lambda>m. f m = f v) xs)"
    by (rule last_in_set)
  with l show "v \<in> set xs \<and> last (filter (\<lambda>m. f m = f v) xs) = v"
    by simp
next
  assume r: "v \<in> set xs \<and> last (filter (\<lambda>m. f m = f v) xs) = v"
  then have "filter (\<lambda>m. f m = f v) xs \<noteq> []"
    by (auto simp: filter_empty_conv)
  with r show "find (\<lambda>m. f m = f v) (rev xs) = Some v"
    by (simp add: find_rev_last)
qed

lemma notin_image_key: "k \<notin> f ` S \<longleftrightarrow> (\<forall>m\<in>S. f m \<noteq> k)"
  by auto

lemma distinct_singleton_set: "distinct xs \<Longrightarrow> xs = [x] \<longleftrightarrow> set xs = {x}"
proof (cases xs)
  case Nil
  then show ?thesis by simp
next
  case (Cons y ys)
  assume "distinct xs"
  with Cons have "y \<notin> set ys" by simp
  with Cons show ?thesis
    by (cases ys) auto
qed

lemma only_last_writer:
  assumes mem: "\<And>v. v \<in> S \<longleftrightarrow>
      v \<in> set xs \<and> last (filter (\<lambda>m. f m = f v) xs) = v \<and> f v \<notin> B"
    and e: "e \<in> S"
  shows "(\<forall>v\<in>S. v = e) \<longleftrightarrow> (\<forall>m\<in>set xs. f m \<noteq> f e \<longrightarrow> f m \<in> B)"
proof
  assume only: "\<forall>v\<in>S. v = e"
  show "\<forall>m\<in>set xs. f m \<noteq> f e \<longrightarrow> f m \<in> B"
  proof (intro ballI impI)
    fix m assume m: "m \<in> set xs" and neq: "f m \<noteq> f e"
    show "f m \<in> B"
    proof (rule ccontr)
      assume n: "f m \<notin> B"
      let ?w = "last (filter (\<lambda>x. f x = f m) xs)"
      from m have "filter (\<lambda>x. f x = f m) xs \<noteq> []"
        by (auto simp: filter_empty_conv)
      then have "?w \<in> set (filter (\<lambda>x. f x = f m) xs)"
        by (rule last_in_set)
      then have w: "?w \<in> set xs" "f ?w = f m"
        by simp_all
      then have "last (filter (\<lambda>x. f x = f ?w) xs) = ?w"
        by simp
      with w n have "?w \<in> S"
        by (simp add: mem)
      with only have "?w = e"
        by blast
      with w(2) neq show False
        by simp
    qed
  qed
next
  assume all: "\<forall>m\<in>set xs. f m \<noteq> f e \<longrightarrow> f m \<in> B"
  show "\<forall>v\<in>S. v = e"
  proof
    fix v assume "v \<in> S"
    then have v: "v \<in> set xs" "last (filter (\<lambda>m. f m = f v) xs) = v" "f v \<notin> B"
      by (simp_all add: mem)
    with all have "f v = f e"
      by blast
    with v(2) have "last (filter (\<lambda>m. f m = f e) xs) = v"
      by simp
    moreover from e have "last (filter (\<lambda>m. f m = f e) xs) = e"
      by (simp add: mem)
    ultimately show "v = e"
      by simp
  qed
qed

lemma map_of_permuted:
  assumes "distinct (map fst xs)" "mset xs' = mset xs"
  shows "map_of xs' = map_of xs"
proof -
  from assms(2) have "mset (map fst xs') = mset (map fst xs)"
    by simp
  then have "distinct (map fst xs') \<longleftrightarrow> distinct (map fst xs)"
    by (rule mset_eq_imp_distinct_iff)
  moreover from assms(2) have "set xs' = set xs"
    by (rule mset_eq_setD)
  ultimately show ?thesis
    using assms(1) by (simp only: map_of_inject_set)
qed

lemma filter_permuted:
  assumes "mset xs' = mset xs"
  shows "mset (map snd (filter P xs')) = mset (map snd (filter P xs))"
proof -
  have "mset (map snd (filter P xs')) = image_mset snd (filter_mset P (mset xs'))"
    by simp
  also have "\<dots> = image_mset snd (filter_mset P (mset xs))"
    by (simp only: assms)
  also have "\<dots> = mset (map snd (filter P xs))"
    by simp
  finally show ?thesis .
qed

lemma Join_Cons: "ys \<noteq> [] \<Longrightarrow> Join (x # ys) sep = x @ sep @ Join ys sep"
  by (cases ys) simp_all

lemma space_free_prefix:
  assumes "CHR '' '' \<notin> set a" "CHR '' '' \<notin> set b" "a @ '' '' @ r = b @ '' '' @ r'"
  shows "a = b"
proof -
  have "takeWhile (\<lambda>c. c \<noteq> CHR '' '') (a @ '' '' @ r) = a"
    using assms(1) by (subst takeWhile_append2) auto
  moreover have "takeWhile (\<lambda>c. c \<noteq> CHR '' '') (b @ '' '' @ r') = b"
    using assms(2) by (subst takeWhile_append2) auto
  ultimately show ?thesis
    using assms(3) by simp
qed

subsection \<open>Composite keyers\<close>

lemma compositeLoop_eq:
  "compositeLoop ks m keys =
     (if \<forall>k\<in>set ks. fst (k m) then (True, Join (keys @ map (\<lambda>k. snd (k m)) ks) '' '')
      else (False, ''''))"
  by (induction ks arbitrary: keys) (auto split: prod.splits)

lemma compositeKey_eq:
  "compositeKey ks m =
     (if \<forall>k\<in>set ks. fst (k m) then (True, Join (map (\<lambda>k. snd (k m)) ks) '' '')
      else (False, ''''))"
  by (simp add: compositeKey_def compositeLoop_eq)

lemma compositeKey_fst: "fst (compositeKey ks m) \<longleftrightarrow> (\<forall>k\<in>set ks. fst (k m))"
  by (simp add: compositeKey_eq)

lemma compositeKey_snd:
  "fst (compositeKey ks m) \<Longrightarrow> snd (compositeKey ks m) = Join (map (\<lambda>k. snd (k m)) ks) '' ''"
  by (simp add: compositeKey_eq split: if_splits)

lemma compositeKey_cong:
  assumes "\<And>k. k \<in> set ks \<Longrightarrow> k m1 = k m2"
  shows "compositeKey ks m1 = compositeKey ks m2"
proof -
  have e: "fst (k m1) = fst (k m2) \<and> snd (k m1) = snd (k m2)" if "k \<in> set ks" for k
    using assms [OF that] by simp
  have a: "(\<forall>k\<in>set ks. fst (k m1)) \<longleftrightarrow> (\<forall>k\<in>set ks. fst (k m2))"
    using e by blast
  have b: "map (\<lambda>k. snd (k m1)) ks = map (\<lambda>k. snd (k m2)) ks"
    by (rule map_cong [OF refl]) (use e in blast)
  show ?thesis
    by (simp only: compositeKey_eq a b)
qed

subsection \<open>The keyer of a metric\<close>

text \<open>A keyer that matches a metric gives a key that depends on the keyer alone, and that
  starts with the name of the metric.\<close>

lemma set_tagNames: "set (tagNames tags) = fst ` set tags"
  by (simp add: tagNames_def)

lemma tagNames_unique:
  assumes "distinct (map fst t1)" "distinct (map fst t2)" "set t1 = set t2"
  shows "tagNames t1 = tagNames t2"
proof -
  from assms(3) have "set (map fst t1) = set (map fst t2)"
    by simp
  with assms(1,2) show ?thesis
    unfolding tagNames_def
    by (intro sorted_distinct_set_unique) simp_all
qed

lemma tagKeyer_self:
  assumes "name \<in> fst ` set (Tags m)"
  shows "fst (tagKeyer q (Tags m) name m)"
proof -
  from assms have "map_of (Tags m) name \<noteq> None"
    by (simp add: map_of_eq_None_iff)
  then show ?thesis
    by (simp add: tagKeyer_def tagNameKey_def fullTagKey_def)
qed

lemma tagKeyer_matched_key:
  assumes "fst (tagKeyer q tags name m)"
  shows "snd (tagKeyer q tags name m) =
           name @ (if index tags name = '''' then ''=*'' else ''='' @ q (index tags name))"
  using assms by (simp add: tagKeyer_def tagNameKey_def fullTagKey_def split: if_splits)

lemma tagsKey_self_matches: "fst (tagsKey q (Tags m) m)"
  by (simp add: tagsKey_def compositeKey_fst set_tagNames tagKeyer_self)

lemma tagsKey_matched_key:
  assumes "fst (tagsKey q tags m)"
  shows "snd (tagsKey q tags m) =
           Join (map (\<lambda>name. name @ (if index tags name = '''' then ''=*''
                                       else ''='' @ q (index tags name)))
                     (tagNames tags)) '' ''"
proof -
  from assms have all: "\<forall>name\<in>set (tagNames tags). fst (tagKeyer q tags name m)"
    by (simp add: tagsKey_def compositeKey_fst)
  have "map (\<lambda>k. snd (k m)) (map (tagKeyer q tags) (tagNames tags)) =
        map (\<lambda>name. snd (tagKeyer q tags name m)) (tagNames tags)"
    by (simp add: comp_def)
  also have "\<dots> = map (\<lambda>name. name @ (if index tags name = '''' then ''=*''
                                       else ''='' @ q (index tags name))) (tagNames tags)"
    by (rule map_cong) (use all in \<open>simp_all add: tagKeyer_matched_key\<close>)
  finally show ?thesis
    using assms by (simp only: tagsKey_def compositeKey_snd)
qed

lemma metricKeyer_fst:
  "fst (metricKeyer q e m) \<longleftrightarrow>
     Name m = Name e \<and> (Value e \<noteq> '''' \<longrightarrow> Value m = Value e) \<and>
     (Timestamp e \<noteq> '''' \<longrightarrow> Timestamp m = Timestamp e) \<and> fst (tagsKey q (Tags e) m)"
  by (auto simp: metricKeyer_def compositeKey_fst nameKey_def valueKey_def timestampKey_def)

lemma metricKeyer_snd:
  assumes "fst (metricKeyer q e m)"
  shows "snd (metricKeyer q e m) =
           Join ([Name m] @ (if Value e \<noteq> '''' then [Value m] else []) @
                 (if Timestamp e \<noteq> '''' then [Timestamp m] else []) @
                 [snd (tagsKey q (Tags e) m)]) '' ''"
  using assms
  by (simp add: metricKeyer_def compositeKey_snd nameKey_def valueKey_def timestampKey_def)

lemma metricKeyer_self_matches: "fst (metricKeyer q m m)"
  by (simp add: metricKeyer_fst tagsKey_self_matches)

lemma metricKeyer_matches_Name: "fst (metricKeyer q e m) \<Longrightarrow> Name m = Name e"
  by (simp add: metricKeyer_fst)

lemma metricKeyer_matched_key:
  assumes "fst (metricKeyer q e m)"
  shows "snd (metricKeyer q e m) = snd (metricKeyer q e e)"
proof -
  from assms have t: "fst (tagsKey q (Tags e) m)"
    by (simp add: metricKeyer_fst)
  have "snd (tagsKey q (Tags e) m) = snd (tagsKey q (Tags e) e)"
    by (simp add: tagsKey_matched_key [OF t] tagsKey_matched_key [OF tagsKey_self_matches])
  with assms show ?thesis
    by (simp add: metricKeyer_snd metricKeyer_self_matches) (simp add: metricKeyer_fst)
qed

lemma metricKeyer_same_fields:
  assumes "Name m1 = Name m2" "Value m1 = Value m2" "Timestamp m1 = Timestamp m2"
    and "map_of (Tags m1) = map_of (Tags m2)"
  shows "metricKeyer q e m1 = metricKeyer q e m2"
proof -
  from assms(4) have idx: "index (Tags m1) = index (Tags m2)"
    by (simp add: index_def fun_eq_iff)
  have "tagKeyer q (Tags e) name m1 = tagKeyer q (Tags e) name m2" for name
    using assms(4) idx by (simp add: tagKeyer_def tagNameKey_def fullTagKey_def)
  then have "tagsKey q (Tags e) m1 = tagsKey q (Tags e) m2"
    unfolding tagsKey_def by (intro compositeKey_cong) auto
  with assms(1-3) show ?thesis
    unfolding metricKeyer_def
    by (intro compositeKey_cong) (auto simp: nameKey_def valueKey_def timestampKey_def)
qed

lemma tagsKey_same_tags:
  assumes "map_of (Tags m1) = map_of (Tags m2)"
  shows "tagsKey q tags m1 = tagsKey q tags m2"
proof -
  from assms have idx: "index (Tags m1) = index (Tags m2)"
    by (simp add: index_def fun_eq_iff)
  have "tagKeyer q tags name m1 = tagKeyer q tags name m2" for name
    using assms idx by (simp add: tagKeyer_def tagNameKey_def fullTagKey_def)
  then show ?thesis
    unfolding tagsKey_def by (intro compositeKey_cong) auto
qed

lemma metricKeyer_key_prefix:
  assumes "fst (metricKeyer q e m)"
  shows "\<exists>rest. snd (metricKeyer q e m) = Name m @ '' '' @ rest"
  using assms by (simp add: metricKeyer_snd Join_Cons)

subsection \<open>Registered keyers and the key of a metric\<close>

text \<open>The key of a metric, in terms of the expected collection: that of the first expected
  metric whose keyer matches it, else its own.\<close>

lemma metricKeyersLoop_eq:
  "metricKeyersLoop q ms kbm name =
     kbm name @ map (metricKeyer q) (filter (\<lambda>e. Name e = name) ms)"
  by (induction ms arbitrary: kbm) auto

lemma metricKeyers_eq:
  "metricKeyers q expected name = map (metricKeyer q) (filter (\<lambda>e. Name e = name) expected)"
  by (simp add: metricKeyers_def metricKeyersLoop_eq)

lemma foundKey_None: "foundKey ks m = None \<longleftrightarrow> (\<forall>k\<in>set ks. \<not> fst (k m))"
  by (induction ks) (auto split: prod.splits)

lemma foundKey_first:
  "\<forall>p\<in>set pre. \<not> fst (p m) \<Longrightarrow> k m = (True, key) \<Longrightarrow> foundKey (pre @ k # post) m = Some key"
  by (induction pre) (auto split: prod.splits)

lemma foundKey_Some:
  "foundKey ks m = Some key \<Longrightarrow>
     \<exists>pre k post. ks = pre @ k # post \<and> (\<forall>p\<in>set pre. \<not> fst (p m)) \<and> k m = (True, key)"
proof (induction ks)
  case Nil
  then show ?case by simp
next
  case (Cons k ks)
  show ?case
  proof (cases "fst (k m)")
    case True
    with Cons.prems have "k m = (True, key)"
      by (auto split: prod.splits)
    then have "k # ks = [] @ k # ks \<and> (\<forall>p\<in>set []. \<not> fst (p m)) \<and> k m = (True, key)"
      by simp
    then show ?thesis by blast
  next
    case False
    with Cons.prems have "foundKey ks m = Some key"
      by (auto split: prod.splits)
    from Cons.IH [OF this] obtain pre k' post where
      "ks = pre @ k' # post" "\<forall>p\<in>set pre. \<not> fst (p m)" "k' m = (True, key)"
      by blast
    with False have "k # ks = (k # pre) @ k' # post \<and> (\<forall>p\<in>set (k # pre). \<not> fst (p m)) \<and> k' m = (True, key)"
      by simp
    then show ?thesis by blast
  qed
qed

lemma foundKey_map_find:
  "foundKey (map (metricKeyer q) es) m =
     (case find (\<lambda>e. fst (metricKeyer q e m)) es of
        None \<Rightarrow> None
      | Some e \<Rightarrow> Some (snd (metricKeyer q e m)))"
  by (induction es) (auto split: prod.splits)

lemma find_filter_matches:
  "find (\<lambda>e. fst (metricKeyer q e m)) (filter (\<lambda>e. Name e = Name m) es) =
   find (\<lambda>e. fst (metricKeyer q e m)) es"
  by (induction es) (auto dest: metricKeyer_matches_Name)

lemma metricKey_expected:
  "metricKey q (metricKeyers q expected) m =
     (case find (\<lambda>e. fst (metricKeyer q e m)) expected of
        None \<Rightarrow> snd (metricKeyer q m m)
      | Some e \<Rightarrow> snd (metricKeyer q e m))"
  by (simp add: metricKey_def metricKeyers_eq foundKey_map_find find_filter_matches
      split: option.splits)

lemma metricKey_unambiguous:
  assumes "\<forall>e1\<in>set expected. \<forall>e2\<in>set expected.
      fst (metricKeyer q e1 m) \<and> fst (metricKeyer q e2 m) \<longrightarrow> e1 = e2"
    and "set expected' = set expected"
  shows "metricKey q (metricKeyers q expected') m = metricKey q (metricKeyers q expected) m"
  by (simp add: metricKey_expected find_unique_set [OF assms])

lemma metricKey_prefix:
  "\<exists>rest. metricKey q (metricKeyers q expected) m = Name m @ '' '' @ rest"
proof (cases "find (\<lambda>e. fst (metricKeyer q e m)) expected")
  case None
  then show ?thesis
    using metricKeyer_key_prefix [OF metricKeyer_self_matches, of q m]
    by (simp add: metricKey_expected)
next
  case (Some e)
  then have "fst (metricKeyer q e m)"
    by (auto simp: find_Some_iff)
  from metricKeyer_key_prefix [OF this] Some show ?thesis
    by (simp add: metricKey_expected)
qed

lemma space_free_names_keys:
  assumes "CHR '' '' \<notin> set (Name a)" "CHR '' '' \<notin> set (Name b)" "Name a \<noteq> Name b"
  shows "metricKey q (metricKeyers q expected) a \<noteq> metricKey q (metricKeyers q expected) b"
proof
  assume eq: "metricKey q (metricKeyers q expected) a = metricKey q (metricKeyers q expected) b"
  obtain r where r: "metricKey q (metricKeyers q expected) a = Name a @ '' '' @ r"
    using metricKey_prefix by blast
  obtain r' where r': "metricKey q (metricKeyers q expected) b = Name b @ '' '' @ r'"
    using metricKey_prefix by blast
  from eq r r' have "Name a @ '' '' @ r = Name b @ '' '' @ r'"
    by simp
  from space_free_prefix [OF assms(1,2) this] assms(3) show False
    by simp
qed

subsection \<open>Key maps\<close>

text \<open>A key map holds, under each key, the last metric of the collection with that key.\<close>

lemma map_of_metricKeyMapLoop:
  "map_of (metricKeyMapLoop q ms ks acc) k =
     (case find (\<lambda>m. metricKey q ks m = k) (rev ms) of
        Some m \<Rightarrow> Some m
      | None \<Rightarrow> map_of acc k)"
  by (induction ms arbitrary: acc) (auto simp: update_conv' find_append_case split: option.splits)

lemma distinct_metricKeyMapLoop:
  "distinct (map fst acc) \<Longrightarrow> distinct (map fst (metricKeyMapLoop q ms ks acc))"
  by (induction ms arbitrary: acc) (auto simp: distinct_update)

lemma map_of_metricKeyMap:
  "map_of (metricKeyMap q ms ks) k = find (\<lambda>m. metricKey q ks m = k) (rev ms)"
  by (simp add: metricKeyMap_def map_of_metricKeyMapLoop split: option.splits)

lemma distinct_metricKeyMap: "distinct (map fst (metricKeyMap q ms ks))"
  by (simp add: metricKeyMap_def distinct_metricKeyMapLoop)

lemma metricKeyMapLoop_snoc:
  "metricKeyMapLoop q (ms @ [m]) ks acc =
     AList.update (metricKey q ks m) m (metricKeyMapLoop q ms ks acc)"
  by (induction ms arbitrary: acc) simp_all

lemma metricKeyMap_snoc:
  "metricKeyMap q (ms @ [m]) ks = AList.update (metricKey q ks m) m (metricKeyMap q ms ks)"
  by (simp add: metricKeyMap_def metricKeyMapLoop_snoc)

lemma keys_metricKeyMapLoop:
  "\<forall>(k, m)\<in>set acc. k = metricKey q ks m \<Longrightarrow>
   \<forall>(k, m)\<in>set (metricKeyMapLoop q ms ks acc). k = metricKey q ks m"
proof (induction ms arbitrary: acc)
  case Nil
  then show ?case by simp
next
  case (Cons x ms)
  have "set (AList.update (metricKey q ks x) x acc) \<subseteq> insert (metricKey q ks x, x) (set acc)"
    by (induction acc) auto
  with Cons.prems have "\<forall>(k, m)\<in>set (AList.update (metricKey q ks x) x acc). k = metricKey q ks m"
    by auto
  from Cons.IH [OF this] show ?case by simp
qed

subsection \<open>The difference of two key maps\<close>

text \<open>Another iteration order of the two maps permutes the two lists that \<^verbatim>\<open>disjunct\<close>
  returns, and nothing else: the properties below speak of their members only, or of
  lists that have one order.\<close>

lemma set_disjunct_fst:
  "distinct (map fst a) \<Longrightarrow>
     set (fst (disjunct a b)) = {v. \<exists>k. map_of a k = Some v \<and> map_of b k = None}"
  by (auto simp: disjunct_def image_iff intro!: exI)

lemma set_disjunct_snd:
  "distinct (map fst b) \<Longrightarrow>
     set (snd (disjunct a b)) = {v. \<exists>k. map_of b k = Some v \<and> map_of a k = None}"
  by (auto simp: disjunct_def image_iff intro!: exI)

lemma disjunct_same: "disjunct a a = ([], [])"
proof -
  have "filter (\<lambda>(x, _). map_of a x = None) a = []"
    by (auto simp: filter_empty_conv map_of_eq_None_iff intro: rev_image_eqI)
  then show ?thesis
    by (simp add: disjunct_def)
qed

lemma disjunct_iteration_order:
  assumes "distinct (map fst a)" "distinct (map fst b)" "mset a' = mset a" "mset b' = mset b"
  shows "mset (fst (disjunct a' b')) = mset (fst (disjunct a b)) \<and>
         mset (snd (disjunct a' b')) = mset (snd (disjunct a b))"
  unfolding disjunct_def fst_conv snd_conv
    map_of_permuted [OF assms(1,3)] map_of_permuted [OF assms(2,4)]
  by (intro conjI filter_permuted assms)

lemma distinct_disjunct:
  "distinct (fst (disjunct (metricKeyMap q ms ks) b)) \<and>
   distinct (snd (disjunct a (metricKeyMap q ms ks)))"
proof -
  let ?M = "metricKeyMap q ms ks"
  have "\<forall>(k, m)\<in>set ?M. k = metricKey q ks m"
    unfolding metricKeyMap_def by (rule keys_metricKeyMapLoop) simp
  then have "map fst ?M = map (metricKey q ks) (map snd ?M)"
    by auto
  with distinct_metricKeyMap [of q ms ks] have "distinct (map (metricKey q ks) (map snd ?M))"
    by simp
  with distinct_map [of "metricKey q ks" "map snd ?M"] have "distinct (map snd ?M)"
    by blast
  then have "distinct (map snd (filter P ?M))" for P
    by (rule distinct_map_filter)
  then show ?thesis
    by (simp add: disjunct_def)
qed

lemma Missing_DiffMetrics:
  "Missing (DiffMetrics q expected actual) =
     fst (disjunct (metricKeyMap q expected (metricKeyers q expected))
                   (metricKeyMap q actual (metricKeyers q expected)))"
  by (simp add: DiffMetrics_def Let_def split: prod.splits)

lemma Extra_DiffMetrics:
  "Extra (DiffMetrics q expected actual) =
     snd (disjunct (metricKeyMap q expected (metricKeyers q expected))
                   (metricKeyMap q actual (metricKeyers q expected)))"
  by (simp add: DiffMetrics_def Let_def split: prod.splits)

lemma set_Missing:
  "set (Missing (DiffMetrics q expected actual)) =
     {v. find (\<lambda>m. metricKey q (metricKeyers q expected) m =
                    metricKey q (metricKeyers q expected) v) (rev expected) = Some v \<and>
         metricKey q (metricKeyers q expected) v \<notin>
           metricKey q (metricKeyers q expected) ` set actual}"
  by (auto simp: Missing_DiffMetrics set_disjunct_fst distinct_metricKeyMap map_of_metricKeyMap
      find_key_None dest: find_key_Some)

lemma set_Extra:
  "set (Extra (DiffMetrics q expected actual)) =
     {v. find (\<lambda>m. metricKey q (metricKeyers q expected) m =
                    metricKey q (metricKeyers q expected) v) (rev actual) = Some v \<and>
         metricKey q (metricKeyers q expected) v \<notin>
           metricKey q (metricKeyers q expected) ` set expected}"
  by (auto simp: Extra_DiffMetrics set_disjunct_snd distinct_metricKeyMap map_of_metricKeyMap
      find_key_None dest: find_key_Some)

lemma distinct_Missing_Extra:
  "distinct (Missing (DiffMetrics q expected actual)) \<and>
   distinct (Extra (DiffMetrics q expected actual))"
  using distinct_disjunct by (simp add: Missing_DiffMetrics Extra_DiffMetrics)

subsection \<open>The tag builder\<close>

lemma mem_Missing:
  "v \<in> set (Missing (DiffMetrics q expected actual)) \<longleftrightarrow>
     v \<in> set expected \<and>
     last (filter (\<lambda>m. metricKey q (metricKeyers q expected) m =
                        metricKey q (metricKeyers q expected) v) expected) = v \<and>
     (\<forall>m\<in>set actual. metricKey q (metricKeyers q expected) m \<noteq>
                         metricKey q (metricKeyers q expected) v)"
  by (simp add: set_Missing find_rev_key notin_image_key)

lemma mem_Extra:
  "v \<in> set (Extra (DiffMetrics q expected actual)) \<longleftrightarrow>
     v \<in> set actual \<and>
     last (filter (\<lambda>m. metricKey q (metricKeyers q expected) m =
                        metricKey q (metricKeyers q expected) v) actual) = v \<and>
     (\<forall>m\<in>set expected. metricKey q (metricKeyers q expected) m \<noteq>
                           metricKey q (metricKeyers q expected) v)"
  by (simp add: set_Extra find_rev_key notin_image_key)

lemma only_Missing:
  "Missing (DiffMetrics q expected actual) = [e] \<longleftrightarrow>
     e \<in> set (Missing (DiffMetrics q expected actual)) \<and>
     (\<forall>m\<in>set expected. metricKey q (metricKeyers q expected) m \<noteq>
                           metricKey q (metricKeyers q expected) e \<longrightarrow>
        metricKey q (metricKeyers q expected) m \<in>
          metricKey q (metricKeyers q expected) ` set actual)"
proof -
  let ?M = "Missing (DiffMetrics q expected actual)"
  have "?M = [e] \<longleftrightarrow> e \<in> set ?M \<and> (\<forall>v\<in>set ?M. v = e)"
    using distinct_Missing_Extra [of q expected actual]
    by (auto simp: distinct_singleton_set)
  moreover have "(\<forall>v\<in>set ?M. v = e) \<longleftrightarrow>
      (\<forall>m\<in>set expected. metricKey q (metricKeyers q expected) m \<noteq>
                           metricKey q (metricKeyers q expected) e \<longrightarrow>
        metricKey q (metricKeyers q expected) m \<in>
          metricKey q (metricKeyers q expected) ` set actual)"
    if "e \<in> set ?M"
    using _ that by (rule only_last_writer) (simp add: mem_Missing notin_image_key)
  ultimately show ?thesis
    by blast
qed

lemma only_Extra:
  "Extra (DiffMetrics q expected actual) = [a] \<longleftrightarrow>
     a \<in> set (Extra (DiffMetrics q expected actual)) \<and>
     (\<forall>m\<in>set actual. metricKey q (metricKeyers q expected) m \<noteq>
                         metricKey q (metricKeyers q expected) a \<longrightarrow>
        metricKey q (metricKeyers q expected) m \<in>
          metricKey q (metricKeyers q expected) ` set expected)"
proof -
  let ?X = "Extra (DiffMetrics q expected actual)"
  have "?X = [a] \<longleftrightarrow> a \<in> set ?X \<and> (\<forall>v\<in>set ?X. v = a)"
    using distinct_Missing_Extra [of q expected actual]
    by (auto simp: distinct_singleton_set)
  moreover have "(\<forall>v\<in>set ?X. v = a) \<longleftrightarrow>
      (\<forall>m\<in>set actual. metricKey q (metricKeyers q expected) m \<noteq>
                         metricKey q (metricKeyers q expected) a \<longrightarrow>
        metricKey q (metricKeyers q expected) m \<in>
          metricKey q (metricKeyers q expected) ` set expected)"
    if "a \<in> set ?X"
    using _ that by (rule only_last_writer) (simp add: mem_Extra notin_image_key)
  ultimately show ?thesis
    by blast
qed

lemma set_Missing_unmatched:
  assumes "\<forall>m1\<in>set expected. \<forall>m2\<in>set expected.
      metricKey q (metricKeyers q expected) m1 = metricKey q (metricKeyers q expected) m2 \<and>
      metricKey q (metricKeyers q expected) m1 \<notin>
        metricKey q (metricKeyers q expected) ` set actual \<longrightarrow> m1 = m2"
  shows "set (Missing (DiffMetrics q expected actual)) =
     {v \<in> set expected. metricKey q (metricKeyers q expected) v \<notin>
        metricKey q (metricKeyers q expected) ` set actual}"
proof -
  let ?K = "metricKey q (metricKeyers q expected)"
  have "last (filter (\<lambda>m. ?K m = ?K v) expected) = v"
    if v: "v \<in> set expected" and un: "?K v \<notin> ?K ` set actual" for v
  proof -
    let ?w = "last (filter (\<lambda>m. ?K m = ?K v) expected)"
    from v have "filter (\<lambda>m. ?K m = ?K v) expected \<noteq> []"
      by (auto simp: filter_empty_conv)
    then have "?w \<in> set (filter (\<lambda>m. ?K m = ?K v) expected)"
      by (rule last_in_set)
    then have "?w \<in> set expected" "?K ?w = ?K v"
      by simp_all
    with assms v un show ?thesis
      by metis
  qed
  then show ?thesis
    by (auto simp: mem_Missing notin_image_key)
qed

lemma set_Extra_unmatched:
  assumes "\<forall>m1\<in>set actual. \<forall>m2\<in>set actual.
      metricKey q (metricKeyers q expected) m1 = metricKey q (metricKeyers q expected) m2 \<and>
      metricKey q (metricKeyers q expected) m1 \<notin>
        metricKey q (metricKeyers q expected) ` set expected \<longrightarrow> m1 = m2"
  shows "set (Extra (DiffMetrics q expected actual)) =
     {v \<in> set actual. metricKey q (metricKeyers q expected) v \<notin>
        metricKey q (metricKeyers q expected) ` set expected}"
proof -
  let ?K = "metricKey q (metricKeyers q expected)"
  have "last (filter (\<lambda>m. ?K m = ?K v) actual) = v"
    if v: "v \<in> set actual" and un: "?K v \<notin> ?K ` set expected" for v
  proof -
    let ?w = "last (filter (\<lambda>m. ?K m = ?K v) actual)"
    from v have "filter (\<lambda>m. ?K m = ?K v) actual \<noteq> []"
      by (auto simp: filter_empty_conv)
    then have "?w \<in> set (filter (\<lambda>m. ?K m = ?K v) actual)"
      by (rule last_in_set)
    then have "?w \<in> set actual" "?K ?w = ?K v"
      by simp_all
    with assms v un show ?thesis
      by metis
  qed
  then show ?thesis
    by (auto simp: mem_Extra notin_image_key)
qed

lemma map_of_copyTags:
  "distinct (map fst srcTags) \<Longrightarrow>
     map_of (copyTags srcTags tags) k =
       (case map_of srcTags k of Some v \<Rightarrow> Some v | None \<Rightarrow> map_of tags k)"
proof (induction srcTags arbitrary: tags)
  case Nil
  then show ?case by simp
next
  case (Cons p srcTags)
  obtain k' v' where p: "p = (k', v')" by (cases p)
  with Cons.prems have "map_of srcTags k' = None"
    by (simp add: map_of_eq_None_iff)
  with Cons p show ?case
    by (simp add: update_conv' split: option.splits)
qed

lemma distinct_copyTags:
  "distinct (map fst tags) \<Longrightarrow> distinct (map fst (copyTags srcTags tags))"
  by (induction srcTags arbitrary: tags) (auto simp: distinct_update)

subsection \<open>Evaluation on concrete metrics\<close>

lemmas unfold_keyers =
  metricKeyers_def metricKeyMap_def metricKey_def metricKeyer_def compositeKey_def nameKey_def
  valueKey_def timestampKey_def tagsKey_def tagKeyer_def tagNames_def tagNameKey_def
  fullTagKey_def index_def

lemmas unfold_diff = DiffMetrics_def Let_def disjunct_def unfold_keyers

lemmas example_defs =
  cpu_expected_def cpu_zone_def value_only_def mem_actual_def cpu_actual_def cpu_other_def

lemma example_keys:
  "metricKey quoteASCII (metricKeyers quoteASCII [cpu_expected, cpu_zone, value_only]) cpu_expected =
     ''cpu.usage pod=*''"
  "metricKey quoteASCII (metricKeyers quoteASCII [cpu_expected, cpu_zone, value_only]) cpu_zone =
     ''cpu.usage zone=*''"
  "metricKey quoteASCII (metricKeyers quoteASCII [cpu_expected, cpu_zone, value_only]) value_only =
     ''a 1 ''"
  "metricKey quoteASCII (metricKeyers quoteASCII [cpu_expected, cpu_zone, value_only]) cpu_actual =
     ''cpu.usage pod=*''"
  "metricKey quoteASCII (metricKeyers quoteASCII [cpu_expected, cpu_zone, value_only]) cpu_other =
     ''cpu.usage pod=*''"
  "metricKey quoteASCII (metricKeyers quoteASCII [cpu_expected, cpu_zone, value_only]) mem_actual =
     ''mem.usage 7 ''"
  by (simp_all add: unfold_keyers example_defs)

lemma example_keys_permuted:
  "metricKey quoteASCII (metricKeyers quoteASCII [value_only, cpu_zone, cpu_expected]) cpu_expected =
     ''cpu.usage pod=*''"
  "metricKey quoteASCII (metricKeyers quoteASCII [value_only, cpu_zone, cpu_expected]) cpu_zone =
     ''cpu.usage zone=*''"
  "metricKey quoteASCII (metricKeyers quoteASCII [value_only, cpu_zone, cpu_expected]) value_only =
     ''a 1 ''"
  "metricKey quoteASCII (metricKeyers quoteASCII [value_only, cpu_zone, cpu_expected]) cpu_actual =
     ''cpu.usage pod=*''"
  "metricKey quoteASCII (metricKeyers quoteASCII [value_only, cpu_zone, cpu_expected]) cpu_other =
     ''cpu.usage pod=*''"
  "metricKey quoteASCII (metricKeyers quoteASCII [value_only, cpu_zone, cpu_expected]) mem_actual =
     ''mem.usage 7 ''"
  by (simp_all add: unfold_keyers example_defs)

lemma example_matches:
  "fst (metricKeyer quoteASCII cpu_expected cpu_expected)"
  "\<not> fst (metricKeyer quoteASCII cpu_expected cpu_zone)"
  "\<not> fst (metricKeyer quoteASCII cpu_expected value_only)"
  "fst (metricKeyer quoteASCII cpu_expected cpu_actual)"
  "fst (metricKeyer quoteASCII cpu_expected cpu_other)"
  "\<not> fst (metricKeyer quoteASCII cpu_expected mem_actual)"
  "\<not> fst (metricKeyer quoteASCII cpu_zone cpu_expected)"
  "fst (metricKeyer quoteASCII cpu_zone cpu_zone)"
  "\<not> fst (metricKeyer quoteASCII cpu_zone value_only)"
  "\<not> fst (metricKeyer quoteASCII cpu_zone cpu_actual)"
  "\<not> fst (metricKeyer quoteASCII cpu_zone cpu_other)"
  "\<not> fst (metricKeyer quoteASCII cpu_zone mem_actual)"
  "\<not> fst (metricKeyer quoteASCII value_only cpu_expected)"
  "\<not> fst (metricKeyer quoteASCII value_only cpu_zone)"
  "fst (metricKeyer quoteASCII value_only value_only)"
  "\<not> fst (metricKeyer quoteASCII value_only cpu_actual)"
  "\<not> fst (metricKeyer quoteASCII value_only cpu_other)"
  "\<not> fst (metricKeyer quoteASCII value_only mem_actual)"
  by (simp_all add: metricKeyer_fst tagsKey_def tagKeyer_def tagNames_def compositeKey_fst
      tagNameKey_def fullTagKey_def index_def example_defs)

text \<open>A metric whose name contains a space can share its key with an expected metric of
  another name: the actual metric \<open>a b\<close> is then taken for the expected metric \<open>a\<close> with
  Value \<open>b\<close>.\<close>

lemma space_in_name_collision:
  "DiffMetrics quoteASCII
     [\<lparr>Name = ''a'', Value = ''b'', Timestamp = '''', Tags = []\<rparr>]
     [\<lparr>Name = ''a b'', Value = '''', Timestamp = '''', Tags = []\<rparr>] =
   \<lparr>Missing = [], Extra = []\<rparr>"
  by (simp add: unfold_diff)

section \<open>Properties\<close>

text \<open>
  C1, as stated, fails: an actual metric whose Name no expected metric has can be
  absent from the Extra list. With no expected metric at all, the actual metrics
  \<open>a\<close> with Value 1 and \<open>a\<close> with Timestamp 1 are both stored under the key \<open>a 1 \<close>,
  the second overwrites the first in the key map, and only the second is in Extra.
\<close>

theorem unregistered_name_counterexample:
  "value_only \<in> set [value_only, timestamp_only] \<and>
   Name value_only \<notin> Name ` set [] \<and>
   value_only \<notin> set (Extra (DiffMetrics quoteASCII [] [value_only, timestamp_only]))"
  by (simp add: unfold_diff value_only_def timestamp_only_def)

text \<open>
  C1, amended: an actual metric whose Name no expected metric has is stored under its
  own full self-key, and it is in the Extra list provided that no expected metric is
  stored under that key and no different actual metric later in the collection is
  stored under that key.
\<close>

theorem unregistered_name_Extra:
  assumes name: "Name a \<notin> Name ` set expected"
    and exp: "\<forall>e\<in>set expected. metricKey quote (metricKeyers quote expected) e \<noteq>
                metricKey quote (metricKeyers quote expected) a"
    and later: "\<forall>m\<in>set post. metricKey quote (metricKeyers quote expected) m =
                  metricKey quote (metricKeyers quote expected) a \<longrightarrow> m = a"
  shows "metricKey quote (metricKeyers quote expected) a = snd (metricKeyer quote a a) \<and>
         a \<in> set (Extra (DiffMetrics quote expected (pre @ a # post)))"
proof
  have "\<not> fst (metricKeyer quote e a)" if "e \<in> set expected" for e
    using that name by (auto dest: metricKeyer_matches_Name)
  then have "find (\<lambda>e. fst (metricKeyer quote e a)) expected = None"
    by (simp add: find_None_iff)
  then show "metricKey quote (metricKeyers quote expected) a = snd (metricKeyer quote a a)"
    by (simp add: metricKey_expected)
next
  from exp have "metricKey quote (metricKeyers quote expected) a \<notin>
      metricKey quote (metricKeyers quote expected) ` set expected"
    by auto
  with find_last_write [OF later] show "a \<in> set (Extra (DiffMetrics quote expected (pre @ a # post)))"
    by (simp add: set_Extra)
qed

theorem unregistered_name_Extra_witness:
  "Name timestamp_only \<notin> Name ` set [cpu_expected] \<and>
   timestamp_only \<in> set (Extra (DiffMetrics quoteASCII [cpu_expected]
      ([value_only] @ timestamp_only # [cpu_actual]))) \<and>
   metricKey quoteASCII (metricKeyers quoteASCII [cpu_expected]) timestamp_only = ''a 1 ''"
  using unregistered_name_Extra
    [of timestamp_only "[cpu_expected]" quoteASCII "[cpu_actual]" "[value_only]"]
  by (simp add: unfold_keyers timestamp_only_def cpu_expected_def cpu_actual_def)

text \<open>
  C2: with the single expected metric \<open>cpu.usage\<close> that leaves Value and Timestamp empty
  and asks only for the presence of the tag \<open>pod\<close>, and the single actual metric
  \<open>cpu.usage\<close> with Value 42, Timestamp 1000 and the tags \<open>pod=abc\<close>, \<open>node=n1\<close>,
  the Missing list and the Extra list of the Diff are both empty.
\<close>

theorem partial_match:
  "DiffMetrics quote
     [\<lparr>Name = ''cpu.usage'', Value = '''', Timestamp = '''', Tags = [(''pod'', '''')]\<rparr>]
     [\<lparr>Name = ''cpu.usage'', Value = ''42'', Timestamp = ''1000'',
       Tags = [(''pod'', ''abc''), (''node'', ''n1'')]\<rparr>] =
   \<lparr>Missing = [], Extra = []\<rparr>"
  by (simp add: unfold_diff)

theorem partial_match_witness:
  "DiffMetrics quoteASCII [cpu_expected] [cpu_actual] = \<lparr>Missing = [], Extra = []\<rparr> \<and>
   metricKeyMap quoteASCII [cpu_actual] (metricKeyers quoteASCII [cpu_expected]) =
     [(''cpu.usage pod=*'', cpu_actual)]"
  using partial_match [of quoteASCII]
  by (simp add: cpu_expected_def cpu_actual_def unfold_keyers)

text \<open>
  C3, as stated, fails. The expected collection holds the metric \<open>x\<close> with no Value and
  no tags and then the metric \<open>x\<close> with Value 42; the actual collection holds the
  metric \<open>x\<close> with Value 43. The keyer of the first expected metric is registered
  first and matches both of the others, so both are stored under the key \<open>x \<close> and
  the Diff is empty.
\<close>

theorem value_mismatch_counterexample:
  "Value x_42 = ''42'' \<and> x_43 = x_42\<lparr>Value := ''43''\<rparr> \<and>
   x_42 \<in> set [x_any, x_42] \<and> x_43 \<in> set [x_43] \<and>
   DiffMetrics quoteASCII [x_any, x_42] [x_43] = \<lparr>Missing = [], Extra = []\<rparr> \<and>
   metricKey quoteASCII (metricKeyers quoteASCII [x_any, x_42]) x_42 = ''x '' \<and>
   metricKey quoteASCII (metricKeyers quoteASCII [x_any, x_42]) x_43 = ''x ''"
  by (simp add: unfold_diff x_any_def x_42_def x_43_def)

text \<open>
  C3, amended. Let the expected collection contain a metric \<open>e\<close> with Value 42 and the
  actual collection the metric \<open>a\<close> that differs from \<open>e\<close> only in its Value, 43.
  The keyer of \<open>e\<close> does not match \<open>a\<close>. The Diff has \<open>e\<close> among its Missing entries
  and \<open>a\<close> among its Extra entries if and only if no actual metric is stored under the
  key of \<open>e\<close>, no expected metric is stored under the key of \<open>a\<close>, \<open>e\<close> is the last
  expected metric stored under its key, and \<open>a\<close> is the last actual metric stored
  under its key. They are the one Missing entry and the one Extra entry if and only
  if, in addition, every expected metric with another key than \<open>e\<close> shares its key
  with an actual metric, and every actual metric with another key than \<open>a\<close> shares
  its key with an expected metric. When the two collections hold \<open>e\<close> and \<open>a\<close> only,
  the Diff has \<open>e\<close> as its one Missing entry and \<open>a\<close> as its one Extra entry, and the
  two are stored under different keys.
\<close>

theorem value_mismatch:
  fixes quote :: "string \<Rightarrow> string" and expected actual :: "Metric list"
  defines "K \<equiv> metricKey quote (metricKeyers quote expected)"
    and "D \<equiv> DiffMetrics quote expected actual"
  assumes val: "Value e = ''42''" and a: "a = e\<lparr>Value := ''43''\<rparr>"
    and e_in: "e \<in> set expected" and a_in: "a \<in> set actual"
  shows "\<not> fst (metricKeyer quote e a) \<and>
    (e \<in> set (Missing D) \<and> a \<in> set (Extra D) \<longleftrightarrow>
       (\<forall>m\<in>set actual. K m \<noteq> K e) \<and> (\<forall>m\<in>set expected. K m \<noteq> K a) \<and>
       last (filter (\<lambda>m. K m = K e) expected) = e \<and>
       last (filter (\<lambda>m. K m = K a) actual) = a) \<and>
    (Missing D = [e] \<and> Extra D = [a] \<longleftrightarrow>
       (\<forall>m\<in>set actual. K m \<noteq> K e) \<and> (\<forall>m\<in>set expected. K m \<noteq> K a) \<and>
       last (filter (\<lambda>m. K m = K e) expected) = e \<and>
       last (filter (\<lambda>m. K m = K a) actual) = a \<and>
       (\<forall>m\<in>set expected. K m \<noteq> K e \<longrightarrow> K m \<in> K ` set actual) \<and>
       (\<forall>m\<in>set actual. K m \<noteq> K a \<longrightarrow> K m \<in> K ` set expected)) \<and>
    (expected = [e] \<and> actual = [a] \<longrightarrow>
       D = \<lparr>Missing = [e], Extra = [a]\<rparr> \<and> K e \<noteq> K a)"
proof -
  have rejects: "\<not> fst (metricKeyer quote e a)"
    using val a by (simp add: metricKeyer_fst)
  have members: "e \<in> set (Missing D) \<and> a \<in> set (Extra D) \<longleftrightarrow>
       (\<forall>m\<in>set actual. K m \<noteq> K e) \<and> (\<forall>m\<in>set expected. K m \<noteq> K a) \<and>
       last (filter (\<lambda>m. K m = K e) expected) = e \<and>
       last (filter (\<lambda>m. K m = K a) actual) = a"
    unfolding K_def D_def mem_Missing mem_Extra using e_in a_in by blast
  have only: "Missing D = [e] \<and> Extra D = [a] \<longleftrightarrow>
       (e \<in> set (Missing D) \<and> a \<in> set (Extra D)) \<and>
       (\<forall>m\<in>set expected. K m \<noteq> K e \<longrightarrow> K m \<in> K ` set actual) \<and>
       (\<forall>m\<in>set actual. K m \<noteq> K a \<longrightarrow> K m \<in> K ` set expected)"
    unfolding K_def D_def only_Missing only_Extra by blast
  have single: "D = \<lparr>Missing = [e], Extra = [a]\<rparr> \<and> K e \<noteq> K a"
    if "expected = [e] \<and> actual = [a]"
  proof -
    have ke: "metricKey quote (metricKeyers quote [e]) e = snd (metricKeyer quote e e)"
      by (simp add: metricKey_expected metricKeyer_self_matches)
    from rejects have ka: "metricKey quote (metricKeyers quote [e]) a = snd (metricKeyer quote a a)"
      by (simp add: metricKey_expected)
    have neq: "snd (metricKeyer quote e e) \<noteq> snd (metricKeyer quote a a)"
      using val a by (simp add: metricKeyer_snd metricKeyer_self_matches)
    then have "DiffMetrics quote [e] [a] = \<lparr>Missing = [e], Extra = [a]\<rparr>"
      by (simp add: DiffMetrics_def Let_def metricKeyMap_def disjunct_def ke ka)
    with neq that show ?thesis
      by (simp add: K_def D_def ke ka)
  qed
  from rejects members only single show ?thesis
    by (simp only: simp_thms) blast
qed

theorem value_mismatch_witness:
  "x_42 \<in> set (Missing (DiffMetrics quoteASCII [x_42, value_only] [mem_actual, x_43])) \<and>
   x_43 \<in> set (Extra (DiffMetrics quoteASCII [x_42, value_only] [mem_actual, x_43])) \<and>
   Missing (DiffMetrics quoteASCII [cpu_expected, x_42] [x_43, cpu_actual]) = [x_42] \<and>
   Extra (DiffMetrics quoteASCII [cpu_expected, x_42] [x_43, cpu_actual]) = [x_43] \<and>
   DiffMetrics quoteASCII [x_42] [x_43] = \<lparr>Missing = [x_42], Extra = [x_43]\<rparr> \<and>
   \<not> fst (metricKeyer quoteASCII x_42 x_43)"
  using
    value_mismatch [where e = x_42 and a = x_43 and expected = "[x_42, value_only]"
      and actual = "[mem_actual, x_43]" and quote = quoteASCII]
    value_mismatch [where e = x_42 and a = x_43 and expected = "[cpu_expected, x_42]"
      and actual = "[x_43, cpu_actual]" and quote = quoteASCII]
    value_mismatch [where e = x_42 and a = x_43 and expected = "[x_42]"
      and actual = "[x_43]" and quote = quoteASCII]
  by (simp add: unfold_keyers x_42_def x_43_def value_only_def mem_actual_def cpu_expected_def
      cpu_actual_def)

text \<open>
  C4: comparing a collection against itself yields a Diff whose Missing list and
  Extra list are both empty.
\<close>

theorem DiffMetrics_self: "DiffMetrics quote C C = \<lparr>Missing = [], Extra = []\<rparr>"
  by (simp add: DiffMetrics_def Let_def disjunct_same)

text \<open>
  C5, as stated, fails. Every metric of the collections below is matched by the keyer
  of exactly one expected metric, its own, yet the two expected metrics are stored
  under the same key \<open>a 1 \<close>, the later one overwrites the earlier one, and the Missing
  list holds whichever comes last: exchanging the two changes the Missing set.
\<close>

theorem order_independence_counterexample:
  "filter (\<lambda>e. fst (metricKeyer quoteASCII e value_only)) [value_only, timestamp_only] =
     [value_only] \<and>
   filter (\<lambda>e. fst (metricKeyer quoteASCII e timestamp_only)) [value_only, timestamp_only] =
     [timestamp_only] \<and>
   mset [timestamp_only, value_only] = mset [value_only, timestamp_only] \<and>
   Missing (DiffMetrics quoteASCII [value_only, timestamp_only] []) = [timestamp_only] \<and>
   Missing (DiffMetrics quoteASCII [timestamp_only, value_only] []) = [value_only] \<and>
   set (Missing (DiffMetrics quoteASCII [timestamp_only, value_only] [])) \<noteq>
     set (Missing (DiffMetrics quoteASCII [value_only, timestamp_only] []))"
  by (simp add: unfold_diff value_only_def timestamp_only_def)

text \<open>
  C5, amended: when every metric of the two collections is matched by the keyer of at
  most one expected metric, and no two different metrics of one collection are
  stored under the same key unless a metric of the other collection is stored under
  that key too, then permuting the expected collection and the actual collection
  leaves the Missing list and the Extra list unchanged as unordered collections.
\<close>

theorem order_independence:
  fixes quote :: "string \<Rightarrow> string" and expected actual :: "Metric list"
  defines "K \<equiv> metricKey quote (metricKeyers quote expected)"
  assumes unamb: "\<forall>m\<in>set expected \<union> set actual. \<forall>e1\<in>set expected. \<forall>e2\<in>set expected.
      fst (metricKeyer quote e1 m) \<and> fst (metricKeyer quote e2 m) \<longrightarrow> e1 = e2"
    and unmatched_e: "\<forall>m1\<in>set expected. \<forall>m2\<in>set expected.
      K m1 = K m2 \<and> K m1 \<notin> K ` set actual \<longrightarrow> m1 = m2"
    and unmatched_a: "\<forall>m1\<in>set actual. \<forall>m2\<in>set actual.
      K m1 = K m2 \<and> K m1 \<notin> K ` set expected \<longrightarrow> m1 = m2"
    and perm_e: "mset expected' = mset expected"
    and perm_a: "mset actual' = mset actual"
  shows "mset (Missing (DiffMetrics quote expected' actual')) =
           mset (Missing (DiffMetrics quote expected actual)) \<and>
         mset (Extra (DiffMetrics quote expected' actual')) =
           mset (Extra (DiffMetrics quote expected actual))"
proof -
  let ?K' = "metricKey quote (metricKeyers quote expected')"
  from perm_e have se: "set expected' = set expected"
    by (rule mset_eq_setD)
  from perm_a have sa: "set actual' = set actual"
    by (rule mset_eq_setD)
  have same: "?K' m = K m" if "m \<in> set expected \<union> set actual" for m
    unfolding K_def using unamb that se by (intro metricKey_unambiguous) auto
  have img_e: "?K' ` set expected' = K ` set expected"
    using same se by auto
  have img_a: "?K' ` set actual' = K ` set actual"
    using same sa by auto
  have unmatched_e': "\<forall>m1\<in>set expected'. \<forall>m2\<in>set expected'.
      ?K' m1 = ?K' m2 \<and> ?K' m1 \<notin> ?K' ` set actual' \<longrightarrow> m1 = m2"
    unfolding img_a se using unmatched_e same by auto
  have unmatched_a': "\<forall>m1\<in>set actual'. \<forall>m2\<in>set actual'.
      ?K' m1 = ?K' m2 \<and> ?K' m1 \<notin> ?K' ` set expected' \<longrightarrow> m1 = m2"
    unfolding img_e sa using unmatched_a same by auto
  have "{v \<in> set expected'. ?K' v \<notin> ?K' ` set actual'} =
        {v \<in> set expected. K v \<notin> K ` set actual}"
    unfolding img_a se using same by auto
  then have "set (Missing (DiffMetrics quote expected' actual')) =
        set (Missing (DiffMetrics quote expected actual))"
    using set_Missing_unmatched [OF unmatched_e']
      set_Missing_unmatched [OF unmatched_e [unfolded K_def]]
    by (simp only: K_def)
  moreover have "{v \<in> set actual'. ?K' v \<notin> ?K' ` set expected'} =
        {v \<in> set actual. K v \<notin> K ` set expected}"
    unfolding img_e sa using same by auto
  then have "set (Extra (DiffMetrics quote expected' actual')) =
        set (Extra (DiffMetrics quote expected actual))"
    using set_Extra_unmatched [OF unmatched_a']
      set_Extra_unmatched [OF unmatched_a [unfolded K_def]]
    by (simp only: K_def)
  ultimately show ?thesis
    using distinct_Missing_Extra [of quote expected actual]
      distinct_Missing_Extra [of quote expected' actual']
    by (simp add: set_eq_iff_mset_eq_distinct)
qed

theorem order_independence_witness:
  "mset (Missing (DiffMetrics quoteASCII [value_only, cpu_zone, cpu_expected]
       [mem_actual, cpu_other, cpu_actual])) =
     mset (Missing (DiffMetrics quoteASCII [cpu_expected, cpu_zone, value_only]
       [cpu_actual, cpu_other, mem_actual])) \<and>
   mset (Extra (DiffMetrics quoteASCII [value_only, cpu_zone, cpu_expected]
       [mem_actual, cpu_other, cpu_actual])) =
     mset (Extra (DiffMetrics quoteASCII [cpu_expected, cpu_zone, value_only]
       [cpu_actual, cpu_other, mem_actual])) \<and>
   DiffMetrics quoteASCII [cpu_expected, cpu_zone, value_only]
       [cpu_actual, cpu_other, mem_actual] =
     \<lparr>Missing = [cpu_zone, value_only], Extra = [mem_actual]\<rparr> \<and>
   DiffMetrics quoteASCII [value_only, cpu_zone, cpu_expected]
       [mem_actual, cpu_other, cpu_actual] =
     \<lparr>Missing = [value_only, cpu_zone], Extra = [mem_actual]\<rparr> \<and>
   metricKey quoteASCII (metricKeyers quoteASCII [cpu_expected, cpu_zone, value_only]) cpu_actual =
     metricKey quoteASCII (metricKeyers quoteASCII [cpu_expected, cpu_zone, value_only]) cpu_other"
proof -
  have hyps:
    "\<forall>m\<in>set [cpu_expected, cpu_zone, value_only] \<union> set [cpu_actual, cpu_other, mem_actual].
        \<forall>e1\<in>set [cpu_expected, cpu_zone, value_only].
        \<forall>e2\<in>set [cpu_expected, cpu_zone, value_only].
          fst (metricKeyer quoteASCII e1 m) \<and> fst (metricKeyer quoteASCII e2 m) \<longrightarrow> e1 = e2"
    "\<forall>m1\<in>set [cpu_expected, cpu_zone, value_only].
       \<forall>m2\<in>set [cpu_expected, cpu_zone, value_only].
        metricKey quoteASCII (metricKeyers quoteASCII [cpu_expected, cpu_zone, value_only]) m1 =
        metricKey quoteASCII (metricKeyers quoteASCII [cpu_expected, cpu_zone, value_only]) m2 \<and>
        metricKey quoteASCII (metricKeyers quoteASCII [cpu_expected, cpu_zone, value_only]) m1 \<notin>
        metricKey quoteASCII (metricKeyers quoteASCII [cpu_expected, cpu_zone, value_only]) `
          set [cpu_actual, cpu_other, mem_actual] \<longrightarrow> m1 = m2"
    "\<forall>m1\<in>set [cpu_actual, cpu_other, mem_actual].
       \<forall>m2\<in>set [cpu_actual, cpu_other, mem_actual].
        metricKey quoteASCII (metricKeyers quoteASCII [cpu_expected, cpu_zone, value_only]) m1 =
        metricKey quoteASCII (metricKeyers quoteASCII [cpu_expected, cpu_zone, value_only]) m2 \<and>
        metricKey quoteASCII (metricKeyers quoteASCII [cpu_expected, cpu_zone, value_only]) m1 \<notin>
        metricKey quoteASCII (metricKeyers quoteASCII [cpu_expected, cpu_zone, value_only]) `
          set [cpu_expected, cpu_zone, value_only] \<longrightarrow> m1 = m2"
    "mset [value_only, cpu_zone, cpu_expected] = mset [cpu_expected, cpu_zone, value_only]"
    "mset [mem_actual, cpu_other, cpu_actual] = mset [cpu_actual, cpu_other, mem_actual]"
    by (simp_all add: example_keys example_matches)
  have "DiffMetrics quoteASCII [cpu_expected, cpu_zone, value_only]
       [cpu_actual, cpu_other, mem_actual] =
     \<lparr>Missing = [cpu_zone, value_only], Extra = [mem_actual]\<rparr>"
    by (simp add: DiffMetrics_def Let_def metricKeyMap_def disjunct_def example_keys)
  moreover have "DiffMetrics quoteASCII [value_only, cpu_zone, cpu_expected]
       [mem_actual, cpu_other, cpu_actual] =
     \<lparr>Missing = [value_only, cpu_zone], Extra = [mem_actual]\<rparr>"
    by (simp add: DiffMetrics_def Let_def metricKeyMap_def disjunct_def example_keys_permuted)
  ultimately show ?thesis
    using order_independence [OF hyps]
    by (simp add: example_keys)
qed

text \<open>
  C6: two metrics whose tag maps hold the same pairs, listed in any two orders, have
  the same list of tag names, sorted in ascending order; their tags give the same
  tag keyer, and every tag keyer gives the two metrics the same result. When their
  Name, Value and Timestamp agree as well, the two metrics give the same keyer, get
  the same result from the keyer of any metric, and are stored under the same key.
\<close>

theorem tag_order_irrelevant:
  assumes d1: "distinct (map fst (Tags m1))" and d2: "distinct (map fst (Tags m2))"
    and same: "set (Tags m1) = set (Tags m2)"
  shows "sorted (tagNames (Tags m1)) \<and> set (tagNames (Tags m1)) = fst ` set (Tags m1) \<and>
    tagNames (Tags m1) = tagNames (Tags m2) \<and>
    tagsKey quote (Tags m1) = tagsKey quote (Tags m2) \<and>
    tagsKey quote tags m1 = tagsKey quote tags m2 \<and>
    (Name m1 = Name m2 \<and> Value m1 = Value m2 \<and> Timestamp m1 = Timestamp m2 \<longrightarrow>
       metricKeyer quote m1 = metricKeyer quote m2 \<and>
       metricKeyer quote e m1 = metricKeyer quote e m2 \<and>
       metricKey quote (metricKeyers quote expected) m1 =
         metricKey quote (metricKeyers quote expected) m2)"
proof -
  from d1 d2 same have maps: "map_of (Tags m1) = map_of (Tags m2)"
    by (simp add: map_of_inject_set)
  then have idx: "index (Tags m1) = index (Tags m2)"
    by (simp add: index_def fun_eq_iff)
  have names: "tagNames (Tags m1) = tagNames (Tags m2)"
    using d1 d2 same by (rule tagNames_unique)
  have "tagKeyer quote (Tags m1) = tagKeyer quote (Tags m2)"
    by (simp add: tagKeyer_def fun_eq_iff idx)
  with names have tags_built: "tagsKey quote (Tags m1) = tagsKey quote (Tags m2)"
    by (simp add: tagsKey_def)
  have tags_applied: "tagsKey quote tags m1 = tagsKey quote tags m2"
    using maps by (rule tagsKey_same_tags)
  have whole: "metricKeyer quote m1 = metricKeyer quote m2 \<and>
       metricKeyer quote e m1 = metricKeyer quote e m2 \<and>
       metricKey quote (metricKeyers quote expected) m1 =
         metricKey quote (metricKeyers quote expected) m2"
    if fields: "Name m1 = Name m2 \<and> Value m1 = Value m2 \<and> Timestamp m1 = Timestamp m2"
  proof -
    have applied: "metricKeyer quote e' m1 = metricKeyer quote e' m2" for e'
      using fields maps by (intro metricKeyer_same_fields) simp_all
    from fields tags_built have built: "metricKeyer quote m1 = metricKeyer quote m2"
      by (simp add: metricKeyer_def)
    have "metricKey quote (metricKeyers quote expected) m1 =
        metricKey quote (metricKeyers quote expected) m2"
      by (simp add: metricKey_expected applied built split: option.splits)
    with applied built show ?thesis
      by simp
  qed
  have "sorted (tagNames (Tags m1)) \<and> set (tagNames (Tags m1)) = fst ` set (Tags m1)"
    by (simp add: tagNames_def)
  with names tags_built tags_applied whole show ?thesis
    by blast
qed

theorem tag_order_irrelevant_witness:
  "tagNames [(''pod'', ''abc''), (''node'', ''n1'')] = [''node'', ''pod''] \<and>
   tagNames [(''node'', ''n1''), (''pod'', ''abc'')] = [''node'', ''pod''] \<and>
   metricKeyer quoteASCII cpu_actual =
     metricKeyer quoteASCII (cpu_actual\<lparr>Tags := [(''node'', ''n1''), (''pod'', ''abc'')]\<rparr>) \<and>
   snd (metricKeyer quoteASCII cpu_actual cpu_actual) =
     ''cpu.usage 42 1000 node='' @ quoteASCII ''n1'' @ '' pod='' @ quoteASCII ''abc''"
proof -
  have "metricKeyer quoteASCII cpu_actual =
     metricKeyer quoteASCII (cpu_actual\<lparr>Tags := [(''node'', ''n1''), (''pod'', ''abc'')]\<rparr>)"
    using tag_order_irrelevant [where ?m1.0 = cpu_actual
        and ?m2.0 = "cpu_actual\<lparr>Tags := [(''node'', ''n1''), (''pod'', ''abc'')]\<rparr>"
        and quote = quoteASCII and tags = "[]" and e = cpu_actual and expected = "[]"]
    by (simp add: cpu_actual_def insert_commute)
  moreover have "snd (metricKeyer quoteASCII cpu_actual cpu_actual) =
     ''cpu.usage 42 1000 node='' @ quoteASCII ''n1'' @ '' pod='' @ quoteASCII ''abc''"
    by (simp add: unfold_keyers cpu_actual_def)
  ultimately show ?thesis
    by (simp add: tagNames_def)
qed

text \<open>
  C7: the keyers registered under a name are those of the expected metrics of that
  name, in the order they were supplied; \<^verbatim>\<open>metricKeyMap\<close> stores a metric under the key
  of the first registered keyer that matches it, whatever keyers come after that one;
  when no registered keyer matches, it stores the metric under the key of the
  metric's own keyer.
\<close>

theorem first_match_wins:
  assumes "keyers = metricKeyers quote expected"
  shows "keyers name = map (metricKeyer quote) (filter (\<lambda>e. Name e = name) expected) \<and>
    (keyers (Name m) = pre @ k # post \<and> (\<forall>p\<in>set pre. \<not> fst (p m)) \<and> fst (k m) \<longrightarrow>
       metricKeyMap quote (ms @ [m]) keyers =
         AList.update (snd (k m)) m (metricKeyMap quote ms keyers)) \<and>
    ((\<forall>p\<in>set (keyers (Name m)). \<not> fst (p m)) \<longrightarrow>
       metricKeyMap quote (ms @ [m]) keyers =
         AList.update (snd (metricKeyer quote m m)) m (metricKeyMap quote ms keyers))"
proof (intro conjI impI)
  show "keyers name = map (metricKeyer quote) (filter (\<lambda>e. Name e = name) expected)"
    using assms by (simp add: metricKeyers_eq)
next
  assume "keyers (Name m) = pre @ k # post \<and> (\<forall>p\<in>set pre. \<not> fst (p m)) \<and> fst (k m)"
  then have "foundKey (keyers (Name m)) m = Some (snd (k m))"
    by (simp add: foundKey_first [where key = "snd (k m)"] prod_eq_iff)
  then show "metricKeyMap quote (ms @ [m]) keyers =
      AList.update (snd (k m)) m (metricKeyMap quote ms keyers)"
    by (simp add: metricKeyMap_snoc metricKey_def)
next
  assume "\<forall>p\<in>set (keyers (Name m)). \<not> fst (p m)"
  then have "foundKey (keyers (Name m)) m = None"
    by (simp add: foundKey_None)
  then show "metricKeyMap quote (ms @ [m]) keyers =
      AList.update (snd (metricKeyer quote m m)) m (metricKeyMap quote ms keyers)"
    by (simp add: metricKeyMap_snoc metricKey_def)
qed

theorem first_match_wins_witness:
  "metricKeyMap quoteASCII ([] @ [cpu_actual]) (metricKeyers quoteASCII [cpu_expected, cpu_exact]) =
     [(''cpu.usage pod=*'', cpu_actual)] \<and>
   metricKeyMap quoteASCII ([] @ [cpu_actual]) (metricKeyers quoteASCII [cpu_exact, cpu_expected]) =
     [(''cpu.usage pod='' @ quoteASCII ''abc'', cpu_actual)] \<and>
   metricKeyMap quoteASCII ([] @ [value_only]) (metricKeyers quoteASCII [cpu_exact, timestamp_only]) =
     [(''a 1 '', value_only)]"
  using
    first_match_wins [of "metricKeyers quoteASCII [cpu_expected, cpu_exact]" quoteASCII
      "[cpu_expected, cpu_exact]" "''cpu.usage''" cpu_actual "[]" "metricKeyer quoteASCII cpu_expected"
      "[metricKeyer quoteASCII cpu_exact]" "[]"]
    first_match_wins [of "metricKeyers quoteASCII [cpu_exact, cpu_expected]" quoteASCII
      "[cpu_exact, cpu_expected]" "''cpu.usage''" cpu_actual "[]" "metricKeyer quoteASCII cpu_exact"
      "[metricKeyer quoteASCII cpu_expected]" "[]"]
    first_match_wins [of "metricKeyers quoteASCII [cpu_exact, timestamp_only]" quoteASCII
      "[cpu_exact, timestamp_only]" "''a''" value_only "[]" "metricKeyer quoteASCII timestamp_only"
      "[]" "[]"]
  by (simp add: unfold_keyers cpu_expected_def cpu_exact_def cpu_actual_def value_only_def
      timestamp_only_def quoteASCII_def)

text \<open>
  C8: the keyer built from a metric matches that metric, and \<^verbatim>\<open>metricKeyMap\<close> stores
  an entry under the key of every metric of its input: the entry is a metric of the
  input with that same key.
\<close>

theorem self_keyer_matches:
  "fst (metricKeyer quote m m) \<and>
   (\<forall>x\<in>set metrics. \<exists>y\<in>set metrics.
      map_of (metricKeyMap quote metrics keyers) (metricKey quote keyers x) = Some y \<and>
      metricKey quote keyers y = metricKey quote keyers x)"
proof (intro conjI ballI)
  show "fst (metricKeyer quote m m)"
    by (rule metricKeyer_self_matches)
next
  fix x assume x: "x \<in> set metrics"
  let ?k = "metricKey quote keyers"
  from x have "find (\<lambda>m. ?k m = ?k x) (rev metrics) \<noteq> None"
    by (auto simp: find_None_iff)
  then obtain y where y: "find (\<lambda>m. ?k m = ?k x) (rev metrics) = Some y"
    by blast
  then have "y \<in> set (rev metrics) \<and> ?k y = ?k x"
    by (rule find_key_Some)
  with y show "\<exists>y\<in>set metrics. map_of (metricKeyMap quote metrics keyers) (?k x) = Some y \<and>
      ?k y = ?k x"
    by (auto simp: map_of_metricKeyMap)
qed

theorem self_keyer_matches_witness:
  "fst (metricKeyer quoteASCII cpu_actual cpu_actual) \<and>
   map_of (metricKeyMap quoteASCII [cpu_actual] (metricKeyers quoteASCII []))
     (metricKey quoteASCII (metricKeyers quoteASCII []) cpu_actual) = Some cpu_actual"
  using self_keyer_matches [of quoteASCII cpu_actual "[cpu_actual]" "metricKeyers quoteASCII []"]
  by simp

text \<open>
  C9: every element of the Missing list is a metric of the expected collection and
  every element of the Extra list is a metric of the actual collection; neither
  list holds a metric of the opposite collection.
\<close>

theorem DiffMetrics_members:
  "set (Missing (DiffMetrics quote expected actual)) \<subseteq> set expected - set actual \<and>
   set (Extra (DiffMetrics quote expected actual)) \<subseteq> set actual - set expected"
  by (auto simp: set_Missing set_Extra dest: find_key_Some)

theorem DiffMetrics_members_witness:
  "set (Missing (DiffMetrics quoteASCII [value_only] [cpu_actual])) \<subseteq> {value_only} \<and>
   set (Extra (DiffMetrics quoteASCII [value_only] [cpu_actual])) \<subseteq> {cpu_actual} \<and>
   DiffMetrics quoteASCII [value_only] [cpu_actual] = \<lparr>Missing = [value_only], Extra = [cpu_actual]\<rparr>"
  using DiffMetrics_members [of quoteASCII "[value_only]" "[cpu_actual]"]
  by (simp add: unfold_diff value_only_def cpu_actual_def)

text \<open>
  C10: in the map that \<^verbatim>\<open>buildTags\<close> returns, every key of the source tags carries
  its source value, also the key argument and \<open>namespace_name\<close>; a key the source
  tags lack carries the namespace if it is \<open>namespace_name\<close>, else the name if it
  is the key argument, and no other key is present.
\<close>

theorem buildTags_precedence:
  assumes "distinct (map fst srcTags)"
  shows "map_of (buildTags key name ns srcTags) k =
      (case map_of srcTags k of
         Some v \<Rightarrow> Some v
       | None \<Rightarrow> if k = ''namespace_name'' then Some ns
                 else if k = key then Some name else None) \<and>
    distinct (map fst (buildTags key name ns srcTags))"
  using assms
  by (simp add: buildTags_def map_of_copyTags distinct_copyTags distinct_update update_conv'
      split: option.splits)

theorem buildTags_precedence_witness:
  "map_of (buildTags ''pod'' ''p1'' ''default''
      [(''namespace_name'', ''kube-system''), (''pod'', ''p2''), (''app'', ''web'')]) ''pod'' = Some ''p2'' \<and>
   map_of (buildTags ''pod'' ''p1'' ''default''
      [(''namespace_name'', ''kube-system''), (''pod'', ''p2''), (''app'', ''web'')]) ''namespace_name'' =
      Some ''kube-system'' \<and>
   map_of (buildTags ''pod'' ''p1'' ''default''
      [(''namespace_name'', ''kube-system''), (''pod'', ''p2''), (''app'', ''web'')]) ''app'' = Some ''web'' \<and>
   map_of (buildTags ''pod'' ''p1'' ''default'' [(''app'', ''web'')]) ''pod'' = Some ''p1'' \<and>
   buildTags ''pod'' ''p1'' ''default'' [(''app'', ''web'')] =
     [(''pod'', ''p1''), (''namespace_name'', ''default''), (''app'', ''web'')]"
  using
    buildTags_precedence [of "[(''namespace_name'', ''kube-system''), (''pod'', ''p2''), (''app'', ''web'')]"
      "''pod''" "''p1''" "''default''" "''pod''"]
    buildTags_precedence [of "[(''namespace_name'', ''kube-system''), (''pod'', ''p2''), (''app'', ''web'')]"
      "''pod''" "''p1''" "''default''" "''namespace_name''"]
    buildTags_precedence [of "[(''namespace_name'', ''kube-system''), (''pod'', ''p2''), (''app'', ''web'')]"
      "''pod''" "''p1''" "''default''" "''app''"]
    buildTags_precedence [of "[(''app'', ''web'')]" "''pod''" "''p1''" "''default''" "''pod''"]
  by (simp add: buildTags_def)

end
